theory Spec2Isabelle
  imports Main
begin

section \<open>Squad Elimination: the rules engine of src/Script.mts\<close>

text \<open>
  The script keeps one mutable \<open>GameState\<close> object holding two JavaScript \<open>Map\<close>s, one of
  \<open>Team\<close> objects and one of \<open>Player\<close> objects. Every method mutates \<open>this\<close>; the model
  passes the object in and returns the updated one. JavaScript numbers are modelled as
  \<open>int\<close> (the counters only ever move by one, far from the range where doubles lose
  precision). A \<open>Map<number, T>\<close> is an association list in insertion order: \<open>get\<close> is
  \<open>map_of\<close>, \<open>values()\<close> is \<open>map snd\<close>, \<open>forEach\<close> maps over the entries. Each entry owns
  its object; the script never stores one object under two keys.
  Calls of \<open>console.log\<close> and \<open>console.debug\<close> are output only and are left out, except for
  the final message of the game, which is the only place the winner is reported.
\<close>

subsection \<open>Constants\<close>

definition INITIAL_TEAM_REVIVES :: int where
  "INITIAL_TEAM_REVIVES = 4"

definition ROUNDS_TO_WIN :: int where
  "ROUNDS_TO_WIN = 2"

definition MAX_NUMBER_OF_ROUNDS :: nat where
  "MAX_NUMBER_OF_ROUNDS = 7"

definition ROUND_TIMER_SECS :: nat where
  "ROUND_TIMER_SECS = 60 * 10"

definition SUDDEN_DEATH_TIMER_SECS :: nat where
  "SUDDEN_DEATH_TIMER_SECS = 60 * 2"

definition TeamIdMapping :: "int \<rightharpoonup> string" where
  "TeamIdMapping = map_of
     [(0, ''Alfa''), (1, ''Bravo''), (2, ''Charlie''),
      (3, ''Delta''), (4, ''Echo''), (5, ''Foxtrot'')]"

subsection \<open>class Team\<close>

record Team =
  teamId :: int
  teamName :: string
  teamScore :: int
  teamRevivesLeft :: int
  teamPlayersAlive :: int
  teamEliminated :: bool

text \<open>The constructor: \<open>TeamIdMapping[teamId] ?? "Unknown"\<close> falls back on a missing key.\<close>

definition newTeam :: "int \<Rightarrow> Team" where
  "newTeam tid =
     \<lparr>teamId = tid,
      teamName = (case TeamIdMapping tid of Some n \<Rightarrow> n | None \<Rightarrow> ''Unknown''),
      teamScore = 0,
      teamRevivesLeft = INITIAL_TEAM_REVIVES,
      teamPlayersAlive = 4,
      teamEliminated = False\<rparr>"

definition gameReset :: "Team \<Rightarrow> Team" where
  "gameReset t =
     t\<lparr>teamScore := 0, teamRevivesLeft := INITIAL_TEAM_REVIVES,
       teamPlayersAlive := 4, teamEliminated := False\<rparr>"

definition roundReset :: "Team \<Rightarrow> Team" where
  "roundReset t =
     t\<lparr>teamRevivesLeft := INITIAL_TEAM_REVIVES, teamPlayersAlive := 4,
       teamEliminated := False\<rparr>"

definition handleTeamElimination :: "Team \<Rightarrow> Team" where
  "handleTeamElimination t = t\<lparr>teamEliminated := True\<rparr>"

text \<open>\<open>teamRevivesLeft--; teamPlayersAlive++\<close>: two unchecked updates.\<close>

definition handleTeamRevive :: "Team \<Rightarrow> Team" where
  "handleTeamRevive t =
     t\<lparr>teamRevivesLeft := teamRevivesLeft t - 1,
       teamPlayersAlive := teamPlayersAlive t + 1\<rparr>"

text \<open>\<open>teamPlayersAlive--\<close>, then the test \<open>=== 0\<close> on the decremented counter.\<close>

definition handleTeamDeath :: "Team \<Rightarrow> Team" where
  "handleTeamDeath t =
     (let t1 = t\<lparr>teamPlayersAlive := teamPlayersAlive t - 1\<rparr>
      in if teamPlayersAlive t1 = 0 then handleTeamElimination t1 else t1)"

definition hasTeamRevivesLeft :: "Team \<Rightarrow> bool" where
  "hasTeamRevivesLeft t = (teamRevivesLeft t > 0)"

definition hasTeamPlayersAlive :: "Team \<Rightarrow> bool" where
  "hasTeamPlayersAlive t = (teamPlayersAlive t > 0)"

definition isTeamEliminated :: "Team \<Rightarrow> bool" where
  "isTeamEliminated t = teamEliminated t"

definition addRoundWin :: "Team \<Rightarrow> Team" where
  "addRoundWin t = t\<lparr>teamScore := teamScore t + 1\<rparr>"

definition hasWonGame :: "Team \<Rightarrow> bool" where
  "hasWonGame t = (teamScore t \<ge> ROUNDS_TO_WIN)"

subsection \<open>class Player\<close>

record Player =
  playerId :: int
  playerName :: string
  playerTeam :: int
  playerAlive :: bool
  playerPinged :: bool

definition newPlayer :: "int \<Rightarrow> Player" where
  "newPlayer pid =
     \<lparr>playerId = pid, playerName = [], playerTeam = - 1,
      playerAlive = True, playerPinged = False\<rparr>"

definition handlePlayerDeath :: "Player \<Rightarrow> Player" where
  "handlePlayerDeath p = p\<lparr>playerAlive := False\<rparr>"

definition handlePlayerRevive :: "Player \<Rightarrow> Player" where
  "handlePlayerRevive p = p\<lparr>playerAlive := True\<rparr>"

definition isPlayerAlive :: "Player \<Rightarrow> bool" where
  "isPlayerAlive p = playerAlive p"

text \<open>
  \<open>canBeRevived\<close> returns early for a living player and for a team id that the map does
  not hold (\<open>get\<close> gives \<open>undefined\<close>); it never reads \<open>teamEliminated\<close>.
\<close>

definition canBeRevived :: "Player \<Rightarrow> (int \<times> Team) list \<Rightarrow> bool" where
  "canBeRevived p tms =
     (if playerAlive p then False
      else case map_of tms (playerTeam p) of
             None \<Rightarrow> False
           | Some playerTeam' \<Rightarrow> hasTeamRevivesLeft playerTeam' \<and> hasTeamPlayersAlive playerTeam')"

definition setPlayerPinged :: "bool \<Rightarrow> Player \<Rightarrow> Player" where
  "setPlayerPinged isPinged p = p\<lparr>playerPinged := isPinged\<rparr>"

subsection \<open>Sequences of calls on one Team object\<close>

text \<open>
  The mutating methods of \<open>Team\<close> as an alphabet, so that statements can range over every
  order in which a caller may invoke them on one object.
\<close>

datatype teamOp =
    GameReset | RoundReset | HandleTeamElimination
  | HandleTeamRevive | HandleTeamDeath | AddRoundWin

fun applyTeamOp :: "Team \<Rightarrow> teamOp \<Rightarrow> Team" where
  "applyTeamOp t GameReset = gameReset t"
| "applyTeamOp t RoundReset = roundReset t"
| "applyTeamOp t HandleTeamElimination = handleTeamElimination t"
| "applyTeamOp t HandleTeamRevive = handleTeamRevive t"
| "applyTeamOp t HandleTeamDeath = handleTeamDeath t"
| "applyTeamOp t AddRoundWin = addRoundWin t"

fun runTeamOps :: "Team \<Rightarrow> teamOp list \<Rightarrow> Team" where
  "runTeamOps t [] = t"
| "runTeamOps t (x # xs) = runTeamOps (applyTeamOp t x) xs"

text \<open>
  What the methods leave to their caller: a death is reported only for a team that is not
  yet eliminated, and a revive is performed only when the two tests of \<open>canBeRevived\<close>
  pass on the team. The other methods have no precondition.
\<close>

fun callerChecks :: "Team \<Rightarrow> teamOp \<Rightarrow> bool" where
  "callerChecks t HandleTeamDeath = (\<not> isTeamEliminated t)"
| "callerChecks t HandleTeamRevive = (hasTeamRevivesLeft t \<and> hasTeamPlayersAlive t)"
| "callerChecks t x = True"

fun checkedRun :: "Team \<Rightarrow> teamOp list \<Rightarrow> bool" where
  "checkedRun t [] = True"
| "checkedRun t (x # xs) = (callerChecks t x \<and> checkedRun (applyTeamOp t x) xs)"

definition squadInvariant :: "Team \<Rightarrow> bool" where
  "squadInvariant t = (teamEliminated t = (teamPlayersAlive t = 0))"

subsection \<open>class RoundState (the variant in src/unnamed/part_000)\<close>

text \<open>
  An earlier variant of the script keeps the round's fields in a class of their own, whose
  \<open>startNewRound\<close> throws \<open>Error("Invalid round number: ...")\<close>. The throw is the \<open>Inl\<close>
  branch. That variant names the bound \<open>MAX_ROUNDS\<close>.
\<close>

datatype error = InvalidRoundNumber int

definition MAX_ROUNDS :: int where
  "MAX_ROUNDS = 7"

record RoundState =
  roundStarted :: bool
  roundEnded :: bool
  roundNumber :: int
  roundTimerSecs :: int
  roundTeams :: "(int \<times> Team) list"
  roundPlayers :: "(int \<times> Player) list"
  isSuddenDeath :: bool

definition newRoundState :: RoundState where
  "newRoundState =
     \<lparr>roundStarted = False, roundEnded = False, roundNumber = - 1, roundTimerSecs = 0,
      roundTeams = [], roundPlayers = [], isSuddenDeath = False\<rparr>"

definition RoundState_startNewRound :: "RoundState \<Rightarrow> int \<Rightarrow> error + RoundState" where
  "RoundState_startNewRound r n =
     (if n < 0 \<or> n > MAX_ROUNDS then Inl (InvalidRoundNumber n)
      else Inr (r\<lparr>roundNumber := n, RoundState.roundStarted := True,
                  RoundState.roundEnded := False, RoundState.roundTimerSecs := 0,
                  isSuddenDeath := False\<rparr>))"

subsection \<open>class GameState (src/Script.mts)\<close>

record GameState =
  gameStarted :: bool
  gameEnded :: bool
  gameRound :: int
  teams :: "(int \<times> Team) list"
  players :: "(int \<times> Player) list"
  roundStarted :: bool
  roundEnded :: bool
  roundTimerSecs :: int
  roundInSuddenDeath :: bool

text \<open>The constructor; the script's single instance is \<open>const game = new GameState()\<close>.\<close>

definition newGameState :: GameState where
  "newGameState =
     \<lparr>gameStarted = False, gameEnded = False, gameRound = - 1, teams = [], players = [],
      roundStarted = False, roundEnded = False, roundTimerSecs = 0,
      roundInSuddenDeath = False\<rparr>"

definition startGame :: "GameState \<Rightarrow> GameState" where
  "startGame g = g\<lparr>gameStarted := True, gameEnded := False\<rparr>"

definition endGame :: "GameState \<Rightarrow> GameState" where
  "endGame g = g\<lparr>gameStarted := False, gameEnded := True, gameRound := - 1\<rparr>"

text \<open>This \<open>startNewRound\<close> has no test of its argument and no \<open>throw\<close>.\<close>

definition startNewRound :: "GameState \<Rightarrow> int \<Rightarrow> GameState" where
  "startNewRound g n =
     g\<lparr>gameRound := n, roundStarted := True, roundEnded := False, roundTimerSecs := 0,
       roundInSuddenDeath := False,
       teams := map (\<lambda>(k, team). (k, roundReset team)) (teams g),
       players := map (\<lambda>(k, player). (k, setPlayerPinged False player)) (players g)\<rparr>"

definition endRound :: "GameState \<Rightarrow> GameState" where
  "endRound g = g\<lparr>roundStarted := False, roundEnded := True\<rparr>"

definition roundEnterSuddenDeath :: "GameState \<Rightarrow> GameState" where
  "roundEnterSuddenDeath g =
     g\<lparr>roundInSuddenDeath := True,
       players := map (\<lambda>(k, player). (k, setPlayerPinged True player)) (players g)\<rparr>"

definition getAliveTeams :: "GameState \<Rightarrow> Team list" where
  "getAliveTeams g = filter (\<lambda>s. \<not> isTeamEliminated s) (map snd (teams g))"

definition getTeamById :: "GameState \<Rightarrow> int \<Rightarrow> Team option" where
  "getTeamById g tid = map_of (teams g) tid"

definition getAllPlayers :: "GameState \<Rightarrow> Player list" where
  "getAllPlayers g = map snd (players g)"

subsection \<open>Event handlers\<close>

text \<open>
  The player handlers of the script have empty bodies. Their arguments are handles of the
  host (\<open>mod.Player\<close>, \<open>mod.DeathType\<close>, \<open>mod.WeaponUnlock\<close>), kept as type variables.
\<close>

definition OnPlayerDied :: "'p \<Rightarrow> 'p \<Rightarrow> 'd \<Rightarrow> 'w \<Rightarrow> GameState \<Rightarrow> GameState" where
  "OnPlayerDied eventPlayer eventOtherPlayer eventDeathType eventWeaponUnlock g = g"

subsection \<open>OnGameModeStarted\<close>

text \<open>
  \<open>await mod.Wait(1)\<close> suspends the loop for a second, and the host may call the exported
  handlers meanwhile. What they do to the game object during the wait of round \<open>r\<close> at
  counter \<open>t\<close> is the parameter \<open>w r t\<close>. The handlers of this script are empty, so the
  script itself runs with \<open>noEvents\<close>; the statements below hold for every \<open>w\<close> that meets
  their hypotheses.
  The two locals \<open>roundNumber\<close> and \<open>roundTimerSecs\<close> start at 0 and are only incremented:
  they are \<open>nat\<close>. The field \<open>game.roundTimerSecs\<close> is a different variable, which the
  loop does not touch.
\<close>

type_synonym hostWait = "nat \<Rightarrow> nat \<Rightarrow> GameState \<Rightarrow> GameState"

definition noEvents :: hostWait where
  "noEvents r t g = g"

text \<open>One pass through the body of the inner \<open>while\<close>, without the increment.\<close>

definition tickBody :: "hostWait \<Rightarrow> nat \<Rightarrow> GameState \<Rightarrow> nat \<Rightarrow> GameState" where
  "tickBody w r g t =
     (let g1 = w r t g
      in if t = ROUND_TIMER_SECS then roundEnterSuddenDeath g1 else g1)"

text \<open>The condition of the inner \<open>while\<close>.\<close>

definition tickGuard :: "GameState \<Rightarrow> nat \<Rightarrow> bool" where
  "tickGuard g t =
     (length (getAliveTeams g) > 1 \<and> t < ROUND_TIMER_SECS + SUDDEN_DEATH_TIMER_SECS)"

function tickLoop :: "hostWait \<Rightarrow> nat \<Rightarrow> GameState \<Rightarrow> nat \<Rightarrow> GameState \<times> nat" where
  "tickLoop w r g t =
     (if tickGuard g t then tickLoop w r (tickBody w r g t) (t + 1) else (g, t))"
  by pat_completeness auto
termination
  by (relation "measure (\<lambda>(w, r, g, t). ROUND_TIMER_SECS + SUDDEN_DEATH_TIMER_SECS - t)")
     (auto simp: tickGuard_def)

text \<open>
  \<open>game.getAliveTeams()[0]!.addRoundWin()\<close> mutates the first object of the map that is
  not eliminated, in place.
\<close>

fun awardFirstAlive :: "(int \<times> Team) list \<Rightarrow> (int \<times> Team) list" where
  "awardFirstAlive [] = []"
| "awardFirstAlive ((k, team) # rest) =
     (if \<not> isTeamEliminated team then (k, addRoundWin team) # rest
      else (k, team) # awardFirstAlive rest)"

text \<open>The \<open>if\<close> after the inner loop; its \<open>else\<close> branch only logs.\<close>

definition resolveRound :: "GameState \<Rightarrow> GameState" where
  "resolveRound g =
     (if length (getAliveTeams g) = 1 then g\<lparr>teams := awardFirstAlive (teams g)\<rparr> else g)"

text \<open>The body of the outer \<open>while\<close>, without the increment of \<open>roundNumber\<close>.\<close>

definition playRound :: "hostWait \<Rightarrow> GameState \<Rightarrow> nat \<Rightarrow> GameState" where
  "playRound w g r =
     endRound (resolveRound (fst (tickLoop w r (startNewRound g (int r)) 0)))"

text \<open>
  The first conjunct of the condition of the outer \<open>while\<close>:
  \<open>[...game.teams.values()].every(team => !team.hasWonGame())\<close>.
\<close>

definition noTeamHasWon :: "GameState \<Rightarrow> bool" where
  "noTeamHasWon g = list_all (\<lambda>team. \<not> hasWonGame team) (map snd (teams g))"

function roundsLoop :: "hostWait \<Rightarrow> GameState \<Rightarrow> nat \<Rightarrow> GameState \<times> nat" where
  "roundsLoop w g r =
     (if noTeamHasWon g \<and> r < MAX_NUMBER_OF_ROUNDS
      then roundsLoop w (playRound w g r) (r + 1) else (g, r))"
  by pat_completeness auto
termination
  by (relation "measure (\<lambda>(w, g, r). MAX_NUMBER_OF_ROUNDS - r)") auto

text \<open>
  The last message of the game: \<open>Game won by team <name> in <roundNumber + 1> rounds!\<close>, or
  \<open>Game lost; no team won in <MAX_NUMBER_OF_ROUNDS> rounds\<close>.
\<close>

datatype gameLog = GameWonBy string nat | GameLost nat

definition OnGameModeStarted :: "hostWait \<Rightarrow> GameState \<Rightarrow> GameState \<times> gameLog" where
  "OnGameModeStarted w game =
     (let (g, r) = roundsLoop w (startGame game) 0;
          winningTeamList = filter hasWonGame (map snd (teams g))
      in (endGame g,
          if length winningTeamList = 1 then GameWonBy (teamName (hd winningTeamList)) (r + 1)
          else GameLost MAX_NUMBER_OF_ROUNDS))"

subsection \<open>Observations and example states\<close>

text \<open>The scores of the teams, in map order, and the teams that \<open>hasWonGame\<close> accepts.\<close>

definition teamScores :: "GameState \<Rightarrow> int list" where
  "teamScores g = map (teamScore \<circ> snd) (teams g)"

definition winners :: "GameState \<Rightarrow> Team list" where
  "winners g = filter hasWonGame (map snd (teams g))"

text \<open>
  The game object at the head of the inner loop when the local counter reads \<open>k\<close>, that is
  after \<open>k\<close> passes through the body, for a loop that has not exited before.
\<close>

fun tickState :: "hostWait \<Rightarrow> nat \<Rightarrow> GameState \<Rightarrow> nat \<Rightarrow> GameState" where
  "tickState w r g 0 = g"
| "tickState w r g (Suc k) = tickBody w r (tickState w r g k) k"

text \<open>
  Concrete states for the evaluations below. The script itself never fills the two maps;
  the fields are public, so these are states of the declared type.
\<close>

definition suddenDeathExample :: GameState where
  "suddenDeathExample =
     roundEnterSuddenDeath
       (startNewRound
          (startGame (newGameState
             \<lparr>teams := [(2, newTeam 2), (3, newTeam 3)],
              players := [(7, (newPlayer 7)\<lparr>playerTeam := 2\<rparr>)]\<rparr>)) 0)"

definition roundExample :: "bool \<Rightarrow> bool \<Rightarrow> bool \<Rightarrow> GameState" where
  "roundExample a b c =
     newGameState\<lparr>teams :=
       [(0, (newTeam 0)\<lparr>teamEliminated := a\<rparr>),
        (1, (newTeam 1)\<lparr>teamEliminated := b\<rparr>),
        (2, (newTeam 2)\<lparr>teamEliminated := c\<rparr>)]\<rparr>"

definition sixSquads :: GameState where
  "sixSquads =
     newGameState
       \<lparr>teams := map (\<lambda>i. (i, newTeam i)) [0, 1, 2, 3, 4, 5],
        players := [(10, (newPlayer 10)\<lparr>playerTeam := 0\<rparr>),
                    (11, (newPlayer 11)\<lparr>playerTeam := 5\<rparr>)]\<rparr>"

definition oneSquad :: GameState where
  "oneSquad = newGameState\<lparr>teams := [(0, newTeam 0)]\<rparr>"

section \<open>Properties of Team and Player\<close>

declare tickLoop.simps [simp del]
declare roundsLoop.simps [simp del]

lemmas team_defs =
  newTeam_def handleTeamDeath_def handleTeamRevive_def handleTeamElimination_def
  addRoundWin_def roundReset_def gameReset_def isTeamEliminated_def hasTeamRevivesLeft_def
  hasTeamPlayersAlive_def INITIAL_TEAM_REVIVES_def Let_def

lemma handleTeamDeath_alive:
  "teamPlayersAlive (handleTeamDeath t) = teamPlayersAlive t - 1"
  by (simp add: handleTeamDeath_def handleTeamElimination_def Let_def)

lemma handleTeamDeath_eliminated:
  "teamEliminated (handleTeamDeath t) = (teamPlayersAlive t = 1 \<or> teamEliminated t)"
  by (simp add: handleTeamDeath_def handleTeamElimination_def Let_def)

lemma applyTeamOp_invariant:
  assumes "squadInvariant t" "0 \<le> teamPlayersAlive t" "callerChecks t x"
    "x \<noteq> HandleTeamElimination"
  shows "squadInvariant (applyTeamOp t x) \<and> 0 \<le> teamPlayersAlive (applyTeamOp t x)"
  using assms
  by (cases x)
     (auto simp: squadInvariant_def gameReset_def roundReset_def handleTeamRevive_def
        handleTeamDeath_alive handleTeamDeath_eliminated addRoundWin_def
        isTeamEliminated_def hasTeamPlayersAlive_def)

lemma checkedRun_invariant:
  "squadInvariant t \<Longrightarrow> 0 \<le> teamPlayersAlive t \<Longrightarrow> checkedRun t xs \<Longrightarrow>
   HandleTeamElimination \<notin> set xs \<Longrightarrow>
   squadInvariant (runTeamOps t xs) \<and> 0 \<le> teamPlayersAlive (runTeamOps t xs)"
proof (induction xs arbitrary: t)
  case Nil
  then show ?case by simp
next
  case (Cons x xs)
  have step: "squadInvariant (applyTeamOp t x) \<and> 0 \<le> teamPlayersAlive (applyTeamOp t x)"
    using Cons.prems by (intro applyTeamOp_invariant) auto
  show ?case
    using Cons.IH [of "applyTeamOp t x"] step Cons.prems by simp
qed

lemma newTeam_invariant: "squadInvariant (newTeam i) \<and> 0 \<le> teamPlayersAlive (newTeam i)"
  by (simp add: squadInvariant_def newTeam_def)

text \<open>
  Claim C2, as amended. Starting from a freshly constructed team, after every sequence of
  calls of \<open>gameReset\<close>, \<open>roundReset\<close>, \<open>handleTeamDeath\<close>, \<open>handleTeamRevive\<close> and
  \<open>addRoundWin\<close> in which each death is reported for a team that is not yet eliminated and
  each revive is performed only when the team has revives left and players alive, the
  team satisfies \<open>teamEliminated = (teamPlayersAlive = 0)\<close>.
\<close>

theorem squad_invariant_checked_calls:
  "checkedRun (newTeam i) xs \<Longrightarrow> HandleTeamElimination \<notin> set xs \<Longrightarrow>
   squadInvariant (runTeamOps (newTeam i) xs)"
  using checkedRun_invariant [of "newTeam i" xs] newTeam_invariant [of i] by simp

theorem squad_invariant_checked_calls_witness:
  "checkedRun (newTeam 3)
     [HandleTeamDeath, HandleTeamRevive, HandleTeamDeath, HandleTeamDeath, HandleTeamDeath,
      HandleTeamDeath, AddRoundWin, RoundReset, HandleTeamDeath, GameReset]
   \<and> HandleTeamElimination \<notin> set
     [HandleTeamDeath, HandleTeamRevive, HandleTeamDeath, HandleTeamDeath, HandleTeamDeath,
      HandleTeamDeath, AddRoundWin, RoundReset, HandleTeamDeath, GameReset]
   \<and> squadInvariant (runTeamOps (newTeam 3)
     [HandleTeamDeath, HandleTeamRevive, HandleTeamDeath, HandleTeamDeath, HandleTeamDeath,
      HandleTeamDeath, AddRoundWin, RoundReset, HandleTeamDeath, GameReset])"
proof -
  have a: "checkedRun (newTeam 3)
     [HandleTeamDeath, HandleTeamRevive, HandleTeamDeath, HandleTeamDeath, HandleTeamDeath,
      HandleTeamDeath, AddRoundWin, RoundReset, HandleTeamDeath, GameReset]"
    by (simp add: team_defs)
  have b: "HandleTeamElimination \<notin> set
     [HandleTeamDeath, HandleTeamRevive, HandleTeamDeath, HandleTeamDeath, HandleTeamDeath,
      HandleTeamDeath, AddRoundWin, RoundReset, HandleTeamDeath, GameReset]"
    by simp
  show ?thesis using a b squad_invariant_checked_calls [OF a b] by blast
qed

text \<open>
  The claim as stated ranges over every sequence. Four deaths bring the counter to 0 and
  set the flag; \<open>handleTeamRevive\<close> then raises the counter to 1 and leaves the flag set.
\<close>

theorem squad_invariant_counterexample:
  "\<not> squadInvariant
       (runTeamOps (newTeam 3)
          [HandleTeamDeath, HandleTeamDeath, HandleTeamDeath, HandleTeamDeath, HandleTeamRevive])"
  by (simp add: squadInvariant_def team_defs)

text \<open>
  Claim C3, as amended. \<open>handleTeamDeath\<close> always lowers \<open>teamPlayersAlive\<close> by exactly one,
  with no floor: on a team whose counter is 0 the result is -1, and the result is
  non-negative when the counter was at least 1 before the call.
\<close>

theorem handleTeamDeath_unchecked_decrement:
  "teamPlayersAlive (handleTeamDeath t) = teamPlayersAlive t - 1
   \<and> (teamPlayersAlive t = 0 \<longrightarrow> teamPlayersAlive (handleTeamDeath t) = - 1)
   \<and> (1 \<le> teamPlayersAlive t \<longrightarrow> 0 \<le> teamPlayersAlive (handleTeamDeath t))"
  by (simp add: handleTeamDeath_def handleTeamElimination_def Let_def)

theorem handleTeamDeath_unchecked_decrement_witness:
  "teamPlayersAlive (handleTeamElimination ((newTeam 3)\<lparr>teamPlayersAlive := 0\<rparr>)) = 0
   \<and> teamPlayersAlive
       (handleTeamDeath (handleTeamElimination ((newTeam 3)\<lparr>teamPlayersAlive := 0\<rparr>))) = - 1
   \<and> 1 \<le> teamPlayersAlive (newTeam 3)
   \<and> 0 \<le> teamPlayersAlive (handleTeamDeath (newTeam 3))"
proof -
  have z: "teamPlayersAlive (handleTeamElimination ((newTeam 3)\<lparr>teamPlayersAlive := 0\<rparr>)) = 0"
    by (simp add: handleTeamElimination_def)
  have p: "1 \<le> teamPlayersAlive (newTeam 3)"
    by (simp add: newTeam_def)
  show ?thesis
    using z p
      handleTeamDeath_unchecked_decrement
        [of "handleTeamElimination ((newTeam 3)\<lparr>teamPlayersAlive := 0\<rparr>)"]
      handleTeamDeath_unchecked_decrement [of "newTeam 3"]
    by blast
qed

text \<open>
  Squad 3 after four deaths has the counter at 0; the fifth death makes it -1.
\<close>

theorem death_at_zero_counterexample:
  "teamPlayersAlive
     (runTeamOps (newTeam 3) [HandleTeamDeath, HandleTeamDeath, HandleTeamDeath, HandleTeamDeath])
     = 0
   \<and> teamPlayersAlive
     (handleTeamDeath
        (runTeamOps (newTeam 3)
           [HandleTeamDeath, HandleTeamDeath, HandleTeamDeath, HandleTeamDeath]))
     = - 1"
  by (simp add: team_defs)

lemma applyTeamOp_keeps_eliminated:
  "teamEliminated t \<Longrightarrow> x \<noteq> GameReset \<Longrightarrow> x \<noteq> RoundReset \<Longrightarrow>
   teamEliminated (applyTeamOp t x)"
  by (cases x)
     (simp_all add: handleTeamDeath_def handleTeamRevive_def handleTeamElimination_def
        addRoundWin_def Let_def)

lemma runTeamOps_keeps_eliminated:
  "teamEliminated t \<Longrightarrow> GameReset \<notin> set xs \<Longrightarrow> RoundReset \<notin> set xs \<Longrightarrow>
   teamEliminated (runTeamOps t xs)"
proof (induction xs arbitrary: t)
  case Nil
  then show ?case by simp
next
  case (Cons x xs)
  from Cons.prems have "teamEliminated (applyTeamOp t x)"
    by (intro applyTeamOp_keeps_eliminated) auto
  with Cons show ?case by simp
qed

lemma canBeRevived_team:
  "canBeRevived p tms \<Longrightarrow>
   \<exists>tm. map_of tms (playerTeam p) = Some tm \<and> 0 < teamPlayersAlive tm
     \<and> 0 < teamRevivesLeft tm"
  by (auto simp: canBeRevived_def hasTeamPlayersAlive_def hasTeamRevivesLeft_def
      split: if_splits option.splits)

text \<open>
  Claim C8, as amended. Between two resets, once \<open>teamEliminated\<close> is true it stays true
  under every sequence of the other methods of \<open>Team\<close>, so it rises at most once. A revive
  that \<open>canBeRevived\<close> accepts targets a member of a team whose \<open>teamPlayersAlive\<close> is
  positive; that team is not eliminated provided it satisfies
  \<open>teamEliminated = (teamPlayersAlive = 0)\<close>. \<open>canBeRevived\<close> does not read the flag itself.
\<close>

theorem elimination_latch_and_revive_check:
  "(teamEliminated t \<and> GameReset \<notin> set xs \<and> RoundReset \<notin> set xs
      \<longrightarrow> teamEliminated (runTeamOps t xs))
   \<and> (canBeRevived p tms \<longrightarrow>
        (\<exists>tm. map_of tms (playerTeam p) = Some tm \<and> 0 < teamPlayersAlive tm))
   \<and> (canBeRevived p tms \<and> map_of tms (playerTeam p) = Some tm \<and> squadInvariant tm
        \<longrightarrow> \<not> teamEliminated tm)"
proof (intro conjI impI)
  assume "teamEliminated t \<and> GameReset \<notin> set xs \<and> RoundReset \<notin> set xs"
  then show "teamEliminated (runTeamOps t xs)"
    by (simp add: runTeamOps_keeps_eliminated)
next
  assume "canBeRevived p tms"
  then show "\<exists>tm. map_of tms (playerTeam p) = Some tm \<and> 0 < teamPlayersAlive tm"
    using canBeRevived_team by blast
next
  assume a: "canBeRevived p tms \<and> map_of tms (playerTeam p) = Some tm \<and> squadInvariant tm"
  then have "0 < teamPlayersAlive tm"
    using canBeRevived_team [of p tms] by auto
  with a show "\<not> teamEliminated tm"
    by (simp add: squadInvariant_def)
qed

theorem elimination_latch_and_revive_check_witness:
  "teamEliminated (handleTeamElimination (newTeam 2))
   \<and> GameReset \<notin> set [HandleTeamRevive, HandleTeamDeath, AddRoundWin]
   \<and> RoundReset \<notin> set [HandleTeamRevive, HandleTeamDeath, AddRoundWin]
   \<and> teamEliminated
       (runTeamOps (handleTeamElimination (newTeam 2))
          [HandleTeamRevive, HandleTeamDeath, AddRoundWin])
   \<and> canBeRevived (handlePlayerDeath ((newPlayer 7)\<lparr>playerTeam := 2\<rparr>))
       [(2, handleTeamDeath (newTeam 2))]
   \<and> map_of [(2, handleTeamDeath (newTeam 2))]
       (playerTeam (handlePlayerDeath ((newPlayer 7)\<lparr>playerTeam := 2\<rparr>)))
       = Some (handleTeamDeath (newTeam 2))
   \<and> squadInvariant (handleTeamDeath (newTeam 2))
   \<and> \<not> teamEliminated (handleTeamDeath (newTeam 2))"
proof -
  have a: "teamEliminated (handleTeamElimination (newTeam 2))"
    by (simp add: handleTeamElimination_def)
  have b: "GameReset \<notin> set [HandleTeamRevive, HandleTeamDeath, AddRoundWin]"
    "RoundReset \<notin> set [HandleTeamRevive, HandleTeamDeath, AddRoundWin]"
    by simp_all
  have c: "canBeRevived (handlePlayerDeath ((newPlayer 7)\<lparr>playerTeam := 2\<rparr>))
       [(2, handleTeamDeath (newTeam 2))]"
    by (simp add: canBeRevived_def handlePlayerDeath_def newPlayer_def team_defs)
  have d: "map_of [(2, handleTeamDeath (newTeam 2))]
       (playerTeam (handlePlayerDeath ((newPlayer 7)\<lparr>playerTeam := 2\<rparr>)))
       = Some (handleTeamDeath (newTeam 2))"
    by (simp add: handlePlayerDeath_def newPlayer_def)
  have e: "squadInvariant (handleTeamDeath (newTeam 2))"
    by (simp add: squadInvariant_def team_defs)
  show ?thesis
    using a b c d e
      elimination_latch_and_revive_check
        [of "handleTeamElimination (newTeam 2)"
            "[HandleTeamRevive, HandleTeamDeath, AddRoundWin]"
            "handlePlayerDeath ((newPlayer 7)\<lparr>playerTeam := 2\<rparr>)"
            "[(2, handleTeamDeath (newTeam 2))]"
            "handleTeamDeath (newTeam 2)"]
    by blast
qed

text \<open>
  A team that \<open>handleTeamElimination\<close> has marked while four of its players are counted
  alive: \<open>canBeRevived\<close> accepts a dead member of it.
\<close>

theorem revive_of_eliminated_squad_counterexample:
  "teamEliminated (handleTeamElimination (newTeam 2))
   \<and> canBeRevived (handlePlayerDeath ((newPlayer 7)\<lparr>playerTeam := 2\<rparr>))
        [(2, handleTeamElimination (newTeam 2))]"
  by (simp add: canBeRevived_def handlePlayerDeath_def newPlayer_def team_defs)

section \<open>Properties of GameState and of the handlers\<close>

lemma roundReset_newTeam: "roundReset (newTeam i) = newTeam i"
  by (simp add: roundReset_def newTeam_def)

lemma suddenDeathExample_fields:
  "roundInSuddenDeath suddenDeathExample"
  "teams suddenDeathExample = [(2, newTeam 2), (3, newTeam 3)]"
  "players suddenDeathExample = [(7, (newPlayer 7)\<lparr>playerTeam := 2, playerPinged := True\<rparr>)]"
  by (simp_all add: suddenDeathExample_def roundEnterSuddenDeath_def startNewRound_def
      startGame_def newGameState_def roundReset_newTeam setPlayerPinged_def)

text \<open>
  Claim C1 asks that a death reported during sudden death eliminates the whole squad: every
  player of the squad dead and the flag set, even from four players alive. Evaluated on
  a game in sudden death in which squad 2 has four players alive and player 7 belongs to
  it: \<open>OnPlayerDied\<close> returns the game unchanged, squad 2 is not eliminated and player 7 is
  still alive. \<open>handleTeamDeath\<close> alone would bring the squad from 4 to 3 without
  eliminating it.
\<close>

theorem OnPlayerDied_no_squad_elimination:
  "roundInSuddenDeath suddenDeathExample
   \<and> getTeamById suddenDeathExample 2 = Some (newTeam 2)
   \<and> teamPlayersAlive (newTeam 2) = 4
   \<and> OnPlayerDied (7::int) (8::int) (0::int) (0::int) suddenDeathExample = suddenDeathExample
   \<and> map_option teamEliminated
        (getTeamById (OnPlayerDied (7::int) (8::int) (0::int) (0::int) suddenDeathExample) 2)
       = Some False
   \<and> map (playerAlive \<circ> snd)
        (players (OnPlayerDied (7::int) (8::int) (0::int) (0::int) suddenDeathExample)) = [True]
   \<and> \<not> teamEliminated (handleTeamDeath (newTeam 2))
   \<and> teamPlayersAlive (handleTeamDeath (newTeam 2)) = 3"
  by (simp add: suddenDeathExample_fields getTeamById_def OnPlayerDied_def)
     (simp add: team_defs newPlayer_def)

lemma RoundState_startNewRound_range:
  "(n < 0 \<or> 7 < n \<longrightarrow> RoundState_startNewRound r n = Inl (InvalidRoundNumber n))
   \<and> (0 \<le> n \<and> n \<le> 7 \<longrightarrow> (\<exists>r'. RoundState_startNewRound r n = Inr r'))"
  by (simp add: RoundState_startNewRound_def MAX_ROUNDS_def)

text \<open>
  Claim C5 asks that starting round \<open>n\<close> fails for every \<open>n < 0\<close> and every \<open>n \<ge> 7\<close>.
  Evaluated at \<open>n = 7\<close>: the test \<open>roundNumber > MAX_ROUNDS\<close> of \<open>RoundState.startNewRound\<close>
  lets 7 through and the round is started with number 7; \<open>GameState.startNewRound\<close> has
  no test and starts round 7, and round -1, as well.
\<close>

theorem startNewRound_accepts_round_seven:
  "RoundState_startNewRound r 7 =
     Inr (r\<lparr>roundNumber := 7, RoundState.roundStarted := True,
           RoundState.roundEnded := False, RoundState.roundTimerSecs := 0,
           isSuddenDeath := False\<rparr>)
   \<and> gameRound (startNewRound g 7) = 7 \<and> roundStarted (startNewRound g 7)
   \<and> gameRound (startNewRound g (- 1)) = - 1 \<and> roundStarted (startNewRound g (- 1))"
  by (simp add: RoundState_startNewRound_def MAX_ROUNDS_def startNewRound_def)

text \<open>
  Claim C10. \<open>endGame\<close> writes \<open>gameStarted\<close>, \<open>gameEnded\<close> and \<open>gameRound\<close> only: the teams
  and players (hence every field of every team and player) and the four round fields
  are unchanged, putting the three fields back gives the state before the call, and the
  three queries answer as before.
\<close>

theorem endGame_frame:
  "teams (endGame g) = teams g
   \<and> players (endGame g) = players g
   \<and> roundStarted (endGame g) = roundStarted g
   \<and> roundEnded (endGame g) = roundEnded g
   \<and> roundTimerSecs (endGame g) = roundTimerSecs g
   \<and> roundInSuddenDeath (endGame g) = roundInSuddenDeath g
   \<and> (endGame g)\<lparr>gameStarted := gameStarted g, gameEnded := gameEnded g,
                   gameRound := gameRound g\<rparr> = g
   \<and> getAliveTeams (endGame g) = getAliveTeams g
   \<and> getTeamById (endGame g) = getTeamById g
   \<and> getAllPlayers (endGame g) = getAllPlayers g"
  by (simp add: endGame_def getAliveTeams_def getTeamById_def getAllPlayers_def fun_eq_iff)

section \<open>The outcome of a round\<close>

lemma no_alive_map_id:
  "\<forall>e \<in> set xs. teamEliminated (snd e) \<Longrightarrow>
   map (\<lambda>(k, t). if teamEliminated t then (k, t)
                   else (k, t\<lparr>teamScore := teamScore t + 1\<rparr>)) xs = xs"
  by (induction xs) auto

lemma awardFirstAlive_single:
  "length (filter (\<lambda>e. \<not> teamEliminated (snd e)) xs) = 1 \<Longrightarrow>
   awardFirstAlive xs =
     map (\<lambda>(k, t). if teamEliminated t then (k, t)
                     else (k, t\<lparr>teamScore := teamScore t + 1\<rparr>)) xs"
proof (induction xs)
  case Nil
  then show ?case by simp
next
  case (Cons a xs)
  obtain k t where a: "a = (k, t)" by (cases a)
  show ?case
  proof (cases "teamEliminated t")
    case True
    with Cons a show ?thesis by (simp add: isTeamEliminated_def)
  next
    case False
    with Cons.prems a have "\<forall>e \<in> set xs. teamEliminated (snd e)"
      by (simp add: filter_empty_conv)
    then show ?thesis
      using False a by (simp add: no_alive_map_id isTeamEliminated_def addRoundWin_def)
  qed
qed

lemma awardFirstAlive_sum:
  "0 < length (filter (\<lambda>e. \<not> teamEliminated (snd e)) xs) \<Longrightarrow>
   sum_list (map (teamScore \<circ> snd) (awardFirstAlive xs))
     = sum_list (map (teamScore \<circ> snd) xs) + 1"
  by (induction xs) (auto simp: addRoundWin_def isTeamEliminated_def split: if_splits)

lemma sum_list_differs: "sum_list xs = sum_list ys + (1::int) \<Longrightarrow> xs \<noteq> ys"
  by auto

lemma length_getAliveTeams:
  "length (getAliveTeams g) = length (filter (\<lambda>e. \<not> teamEliminated (snd e)) (teams g))"
  by (simp add: getAliveTeams_def isTeamEliminated_def comp_def)

text \<open>
  Claim C6. At the exit of the inner loop: with exactly one team not eliminated, that
  team's score goes up by exactly 1 and every eliminated team is unchanged (the total of
  the scores goes up by 1); with none or with two or more, the game object is unchanged.
  Whether any score changes depends on the number of teams not eliminated only.
\<close>

theorem round_outcome_by_alive_count:
  "(length (getAliveTeams g) = 1 \<longrightarrow>
      resolveRound g =
        g\<lparr>teams := map (\<lambda>(k, t). if teamEliminated t then (k, t)
                                  else (k, t\<lparr>teamScore := teamScore t + 1\<rparr>)) (teams g)\<rparr>
      \<and> sum_list (teamScores (resolveRound g)) = sum_list (teamScores g) + 1)
   \<and> (length (getAliveTeams g) \<noteq> 1 \<longrightarrow> resolveRound g = g)
   \<and> (teamScores (resolveRound g) \<noteq> teamScores g) = (length (getAliveTeams g) = 1)"
proof (cases "length (getAliveTeams g) = 1")
  case True
  then have one: "length (filter (\<lambda>e. \<not> teamEliminated (snd e)) (teams g)) = 1"
    by (simp add: length_getAliveTeams)
  have eq: "resolveRound g =
        g\<lparr>teams := map (\<lambda>(k, t). if teamEliminated t then (k, t)
                                  else (k, t\<lparr>teamScore := teamScore t + 1\<rparr>)) (teams g)\<rparr>"
    using True awardFirstAlive_single [OF one] by (simp add: resolveRound_def)
  have sm: "sum_list (teamScores (resolveRound g)) = sum_list (teamScores g) + 1"
    using True awardFirstAlive_sum [of "teams g"] one
    by (simp add: resolveRound_def teamScores_def)
  from sm have "teamScores (resolveRound g) \<noteq> teamScores g"
    by (rule sum_list_differs)
  with True eq sm show ?thesis by simp
next
  case False
  then show ?thesis by (simp add: resolveRound_def)
qed

lemma roundExample_alive:
  "length (getAliveTeams (roundExample True False True)) = 1"
  "length (getAliveTeams (roundExample False False True)) \<noteq> 1"
  by (simp_all add: roundExample_def getAliveTeams_def isTeamEliminated_def newGameState_def)

theorem round_outcome_by_alive_count_witness:
  "length (getAliveTeams (roundExample True False True)) = 1
   \<and> teamScores (resolveRound (roundExample True False True)) = [0, 1, 0]
   \<and> length (getAliveTeams (roundExample False False True)) \<noteq> 1
   \<and> resolveRound (roundExample False False True) = roundExample False False True"
proof -
  note a = roundExample_alive
  have s: "teamScores
     ((roundExample True False True)\<lparr>teams := map (\<lambda>(k, t). if teamEliminated t then (k, t)
                                  else (k, t\<lparr>teamScore := teamScore t + 1\<rparr>))
          (teams (roundExample True False True))\<rparr>) = [0, 1, 0]"
    by (simp add: teamScores_def roundExample_def newGameState_def newTeam_def)
  show ?thesis
    using a s round_outcome_by_alive_count [of "roundExample True False True"]
      round_outcome_by_alive_count [of "roundExample False False True"]
    by simp
qed

section \<open>The timer loop of a round\<close>

lemma tickLoop_unroll:
  "(\<And>j. j < k \<Longrightarrow> tickGuard (tickState w r g j) j) \<Longrightarrow>
   tickLoop w r g 0 = tickLoop w r (tickState w r g k) k"
proof (induction k)
  case 0
  then show ?case by simp
next
  case (Suc k)
  have "tickLoop w r g 0 = tickLoop w r (tickState w r g k) k"
    using Suc by simp
  also have "\<dots> = tickLoop w r (tickBody w r (tickState w r g k) k) (k + 1)"
    using Suc.prems [of k] by (subst tickLoop.simps) simp
  finally show ?case by simp
qed

lemma teams_tickBody:
  "(\<And>r t g. teams (w r t g) = teams g) \<Longrightarrow> teams (tickBody w r g t) = teams g"
  by (simp add: tickBody_def Let_def roundEnterSuddenDeath_def)

lemma teams_tickState:
  "(\<And>r t g. teams (w r t g) = teams g) \<Longrightarrow> teams (tickState w r g k) = teams g"
  by (induction k) (simp_all add: teams_tickBody)

lemma suddenDeath_tickState:
  "(\<And>r t g. roundInSuddenDeath (w r t g) = roundInSuddenDeath g) \<Longrightarrow>
   roundInSuddenDeath (tickState w r g k) = (roundInSuddenDeath g \<or> ROUND_TIMER_SECS < k)"
proof (induction k)
  case 0
  then show ?case by simp
next
  case (Suc k)
  then show ?case
    by (auto simp: tickBody_def Let_def roundEnterSuddenDeath_def)
qed

lemma alive_after_startNewRound:
  "length (getAliveTeams (startNewRound g n)) = length (teams g)"
  by (simp add: getAliveTeams_def startNewRound_def isTeamEliminated_def roundReset_def
      comp_def case_prod_beta)

lemma pinged_roundEnterSuddenDeath:
  "list_all (\<lambda>p. playerPinged p) (getAllPlayers (roundEnterSuddenDeath g))"
  by (simp add: roundEnterSuddenDeath_def getAllPlayers_def list_all_iff setPlayerPinged_def
      case_prod_beta)

lemma getAliveTeams_cong: "teams g = teams g' \<Longrightarrow> getAliveTeams g = getAliveTeams g'"
  by (simp add: getAliveTeams_def)

lemma tickState_noEvents:
  "tickState noEvents r g k = (if k \<le> 600 then g else roundEnterSuddenDeath g)"
proof (induction k)
  case 0
  then show ?case by simp
next
  case (Suc k)
  show ?case
    using Suc
    by (auto simp add: tickBody_def noEvents_def ROUND_TIMER_SECS_def Let_def)
qed

text \<open>
  The timeline of a round during which the waits change neither the teams nor the phase
  flag, with at least two teams in the game. \<open>tickState \<dots> k\<close> is the game after \<open>k\<close>
  waits. The flag \<open>roundInSuddenDeath\<close> is still false after each of the first 600 waits;
  the pass that makes the 601st wait finds the counter at 600 and calls
  \<open>roundEnterSuddenDeath\<close>; the loop exits after 720 waits and the round is resolved without
  any change.
\<close>

lemma tickLoop_quiet_round:
  assumes no_deaths: "\<And>r t g. teams (w r t g) = teams g"
    and phase_kept: "\<And>r t g. roundInSuddenDeath (w r t g) = roundInSuddenDeath g"
    and squads: "2 \<le> length (teams g)"
  shows "(\<forall>k \<le> 600. \<not> roundInSuddenDeath (tickState w r (startNewRound g n) k))
    \<and> tickState w r (startNewRound g n) 601
        = roundEnterSuddenDeath (w r 600 (tickState w r (startNewRound g n) 600))
    \<and> list_all (\<lambda>p. playerPinged p) (getAllPlayers (tickState w r (startNewRound g n) 601))
    \<and> (\<forall>k \<in> {601..720}. roundInSuddenDeath (tickState w r (startNewRound g n) k))
    \<and> (\<forall>k < 720. tickGuard (tickState w r (startNewRound g n) k) k)
    \<and> tickLoop w r (startNewRound g n) 0 = (tickState w r (startNewRound g n) 720, 720)
    \<and> length (getAliveTeams (tickState w r (startNewRound g n) 720)) = length (teams g)
    \<and> resolveRound (tickState w r (startNewRound g n) 720)
        = tickState w r (startNewRound g n) 720"
proof -
  let ?g0 = "startNewRound g n"
  let ?s = "tickState w r ?g0"
  have sd0: "\<not> roundInSuddenDeath ?g0"
    by (simp add: startNewRound_def)
  have sd: "roundInSuddenDeath (?s k) = (600 < k)" for k
    using suddenDeath_tickState [of w r ?g0 k] phase_kept sd0
    by (simp add: ROUND_TIMER_SECS_def)
  have alive: "length (getAliveTeams (?s k)) = length (teams g)" for k
    using getAliveTeams_cong [OF teams_tickState [of w r ?g0 k]] no_deaths
    by (simp add: alive_after_startNewRound)
  have guard: "tickGuard (?s k) k = (k < 720)" for k
    using alive [of k] squads
    by (simp add: tickGuard_def ROUND_TIMER_SECS_def SUDDEN_DEATH_TIMER_SECS_def)
  have s601: "?s 601 = roundEnterSuddenDeath (w r 600 (?s 600))"
  proof -
    have "?s (Suc 600) = tickBody w r (?s 600) 600" by (rule tickState.simps)
    then show ?thesis by (simp add: tickBody_def ROUND_TIMER_SECS_def)
  qed
  have ping: "list_all (\<lambda>p. playerPinged p) (getAllPlayers (?s 601))"
    unfolding s601 by (rule pinged_roundEnterSuddenDeath)
  have loop: "tickLoop w r ?g0 0 = (?s 720, 720)"
  proof -
    have "tickLoop w r ?g0 0 = tickLoop w r (?s 720) 720"
      by (rule tickLoop_unroll) (simp add: guard)
    also have "\<dots> = (?s 720, 720)"
      by (subst tickLoop.simps) (simp add: guard)
    finally show ?thesis .
  qed
  have res: "resolveRound (?s 720) = ?s 720"
    using alive [of 720] squads by (simp add: resolveRound_def)
  show ?thesis
    using sd guard s601 ping loop alive res by simp
qed

text \<open>
  Claim C9 asks that, with no deaths, sudden death is entered exactly at elapsed tick 600.
  Evaluated on six squads with the script's own empty handlers: after 600 one-second waits
  the flag \<open>roundInSuddenDeath\<close> is false and no player is pinged, because the loop waits,
  then compares the counter with 600, then increments it. The flag is set and the players
  are pinged after the 601st wait, and the loop exits after the 720th with all six squads
  alive, which leaves 119 waits of sudden death where the header of the script announces
  a 10 minute timer followed by 2 minutes of sudden death.
\<close>

theorem sudden_death_entered_after_601_waits:
  "\<not> roundInSuddenDeath (tickState noEvents 0 (startNewRound sixSquads 0) 600)
   \<and> map (playerPinged \<circ> snd) (players (tickState noEvents 0 (startNewRound sixSquads 0) 600))
       = [False, False]
   \<and> roundInSuddenDeath (tickState noEvents 0 (startNewRound sixSquads 0) 601)
   \<and> map (playerPinged \<circ> snd) (players (tickState noEvents 0 (startNewRound sixSquads 0) 601))
       = [True, True]
   \<and> tickLoop noEvents 0 (startNewRound sixSquads 0) 0
       = (roundEnterSuddenDeath (startNewRound sixSquads 0), 720)
   \<and> length (getAliveTeams (roundEnterSuddenDeath (startNewRound sixSquads 0))) = 6"
proof -
  have a: "teams (noEvents r t g) = teams g" for r t g
    by (simp add: noEvents_def)
  have b: "roundInSuddenDeath (noEvents r t g) = roundInSuddenDeath g" for r t g
    by (simp add: noEvents_def)
  have c: "2 \<le> length (teams sixSquads)"
    by (simp add: sixSquads_def)
  have d: "length (teams sixSquads) = 6"
    by (simp add: sixSquads_def)
  have e: "tickState noEvents 0 (startNewRound sixSquads 0) 720
      = roundEnterSuddenDeath (startNewRound sixSquads 0)"
    by (simp add: tickState_noEvents)
  have p600: "map (playerPinged \<circ> snd)
      (players (tickState noEvents 0 (startNewRound sixSquads 0) 600)) = [False, False]"
    by (simp add: tickState_noEvents startNewRound_def sixSquads_def newGameState_def
        setPlayerPinged_def)
  have p601: "map (playerPinged \<circ> snd)
      (players (tickState noEvents 0 (startNewRound sixSquads 0) 601)) = [True, True]"
    by (simp add: tickState_noEvents roundEnterSuddenDeath_def startNewRound_def
        sixSquads_def newGameState_def setPlayerPinged_def)
  note T = tickLoop_quiet_round [of noEvents sixSquads 0 0, OF a b c]
  from T have t1: "\<not> roundInSuddenDeath (tickState noEvents 0 (startNewRound sixSquads 0) 600)"
    by blast
  from T have "\<forall>k \<in> {601..720}.
      roundInSuddenDeath (tickState noEvents 0 (startNewRound sixSquads 0) k)"
    by blast
  then have t2: "roundInSuddenDeath (tickState noEvents 0 (startNewRound sixSquads 0) 601)"
    by (rule bspec) simp
  from T have t3: "tickLoop noEvents 0 (startNewRound sixSquads 0) 0
      = (tickState noEvents 0 (startNewRound sixSquads 0) 720, 720)"
    by blast
  from T have t4: "length (getAliveTeams (tickState noEvents 0 (startNewRound sixSquads 0) 720))
      = length (teams sixSquads)"
    by blast
  show ?thesis
    using t1 t2 t3 t4 p600 p601 by (simp add: d e)
qed

section \<open>The end of the game\<close>

lemma teamScores_startNewRound: "teamScores (startNewRound g n) = teamScores g"
  by (simp add: teamScores_def startNewRound_def roundReset_def comp_def case_prod_beta)

lemma teamScores_tickBody:
  "(\<And>r t g. teamScores (w r t g) = teamScores g) \<Longrightarrow>
   teamScores (tickBody w r g t) = teamScores g"
  by (simp add: tickBody_def Let_def roundEnterSuddenDeath_def teamScores_def)

lemma teamScores_tickLoop:
  "(\<And>r t g. teamScores (w r t g) = teamScores g) \<Longrightarrow>
   teamScores (fst (tickLoop w r g t)) = teamScores g"
proof (induction w r g t rule: tickLoop.induct)
  case (1 w r g t)
  show ?case
  proof (cases "tickGuard g t")
    case True
    then have "teamScores (fst (tickLoop w r g t))
        = teamScores (fst (tickLoop w r (tickBody w r g t) (t + 1)))"
      by (subst tickLoop.simps) simp
    also have "\<dots> = teamScores (tickBody w r g t)"
      using "1.IH" [OF True] "1.prems" by simp
    also have "\<dots> = teamScores g"
      using "1.prems" by (rule teamScores_tickBody)
    finally show ?thesis .
  next
    case False
    then show ?thesis by (subst tickLoop.simps) simp
  qed
qed

lemma noTeamHasWon_scores: "noTeamHasWon g = (\<forall>s \<in> set (teamScores g). s < 2)"
  by (auto simp: noTeamHasWon_def teamScores_def list_all_iff hasWonGame_def ROUNDS_TO_WIN_def)

lemma noTeamHasWon_winners: "noTeamHasWon g = (winners g = [])"
  by (auto simp: noTeamHasWon_def winners_def list_all_iff filter_empty_conv)

lemma awardFirstAlive_winners:
  "\<forall>e \<in> set xs. \<not> hasWonGame (snd e) \<Longrightarrow>
   length (filter (\<lambda>e. hasWonGame (snd e)) (awardFirstAlive xs)) \<le> 1"
proof (induction xs)
  case Nil
  then show ?case by simp
next
  case (Cons a xs)
  obtain k t where a: "a = (k, t)" by (cases a)
  show ?case
  proof (cases "isTeamEliminated t")
    case True
    with Cons a show ?thesis by simp
  next
    case False
    from Cons.prems have "filter (\<lambda>e. hasWonGame (snd e)) xs = []"
      by (simp add: filter_empty_conv)
    with False a show ?thesis by simp
  qed
qed

lemma length_winners:
  "length (winners g) = length (filter (\<lambda>e. hasWonGame (snd e)) (teams g))"
  by (simp add: winners_def comp_def)

lemma resolveRound_winners:
  assumes "noTeamHasWon g"
  shows "length (winners (resolveRound g)) \<le> 1"
proof (cases "length (getAliveTeams g) = 1")
  case True
  from assms have "\<forall>e \<in> set (teams g). \<not> hasWonGame (snd e)"
    by (auto simp: noTeamHasWon_def list_all_iff)
  then show ?thesis
    using True awardFirstAlive_winners [of "teams g"]
    by (simp add: resolveRound_def length_winners)
next
  case False
  with assms show ?thesis
    by (simp add: resolveRound_def noTeamHasWon_winners)
qed

lemma playRound_winners:
  assumes w: "\<And>r t g. teamScores (w r t g) = teamScores g"
    and g: "noTeamHasWon g"
  shows "length (winners (playRound w g r)) \<le> 1"
proof -
  let ?g2 = "fst (tickLoop w r (startNewRound g (int r)) 0)"
  have "teamScores ?g2 = teamScores g"
    using teamScores_tickLoop [of w r "startNewRound g (int r)" 0] w
    by (simp add: teamScores_startNewRound)
  with g have "noTeamHasWon ?g2"
    by (simp add: noTeamHasWon_scores)
  then have "length (winners (resolveRound ?g2)) \<le> 1"
    by (rule resolveRound_winners)
  then show ?thesis
    by (simp add: playRound_def endRound_def winners_def)
qed

lemma roundsLoop_winners:
  "(\<And>r t g. teamScores (w r t g) = teamScores g) \<Longrightarrow> length (winners g) \<le> 1 \<Longrightarrow>
   length (winners (fst (roundsLoop w g r))) \<le> 1"
proof (induction w g r rule: roundsLoop.induct)
  case (1 w g r)
  show ?case
  proof (cases "noTeamHasWon g \<and> r < MAX_NUMBER_OF_ROUNDS")
    case True
    have "length (winners (playRound w g r)) \<le> 1"
      using "1.prems"(1) True by (intro playRound_winners) auto
    then have "length (winners (fst (roundsLoop w (playRound w g r) (r + 1)))) \<le> 1"
      using "1.IH" [OF True] "1.prems"(1) by simp
    with True show ?thesis by (subst roundsLoop.simps) simp
  next
    case False
    with "1.prems"(2) show ?thesis by (subst roundsLoop.simps) auto
  qed
qed

lemma roundsLoop_exit:
  "r \<le> MAX_NUMBER_OF_ROUNDS \<Longrightarrow>
   \<not> noTeamHasWon (fst (roundsLoop w g r)) \<or> snd (roundsLoop w g r) = MAX_NUMBER_OF_ROUNDS"
proof (induction w g r rule: roundsLoop.induct)
  case (1 w g r)
  show ?case
  proof (cases "noTeamHasWon g \<and> r < MAX_NUMBER_OF_ROUNDS")
    case True
    then have "r + 1 \<le> MAX_NUMBER_OF_ROUNDS" by simp
    from "1.IH" [OF True this] True show ?thesis
      by (subst (1 2) roundsLoop.simps) simp
  next
    case False
    with "1.prems" show ?thesis by (subst (1 2) roundsLoop.simps) auto
  qed
qed

lemma roundsLoop_stops:
  "\<not> noTeamHasWon g \<Longrightarrow> roundsLoop w g r = (g, r)"
  by (subst roundsLoop.simps) simp

lemma roundsLoop_step:
  "noTeamHasWon g \<Longrightarrow> r < MAX_NUMBER_OF_ROUNDS \<Longrightarrow>
   roundsLoop w g r = roundsLoop w (playRound w g r) (r + 1)"
  by (subst roundsLoop.simps) simp

lemma OnGameModeStarted_unfold:
  "OnGameModeStarted w game =
     (endGame (fst (roundsLoop w (startGame game) 0)),
      if length (winners (fst (roundsLoop w (startGame game) 0))) = 1
      then GameWonBy (teamName (hd (winners (fst (roundsLoop w (startGame game) 0)))))
             (snd (roundsLoop w (startGame game) 0) + 1)
      else GameLost MAX_NUMBER_OF_ROUNDS)"
  by (simp add: OnGameModeStarted_def winners_def case_prod_beta Let_def)

lemmas run_defs =
  roundsLoop.simps tickLoop.simps playRound_def resolveRound_def endRound_def startNewRound_def
  startGame_def endGame_def tickGuard_def getAliveTeams_def noTeamHasWon_def noEvents_def
  isTeamEliminated_def hasWonGame_def addRoundWin_def roundReset_def newTeam_def
  newGameState_def TeamIdMapping_def INITIAL_TEAM_REVIVES_def ROUNDS_TO_WIN_def
  MAX_NUMBER_OF_ROUNDS_def ROUND_TIMER_SECS_def SUDDEN_DEATH_TIMER_SECS_def

lemma oneSquad_run:
  "teamScores (fst (roundsLoop noEvents (startGame oneSquad) 0)) = [2]"
  "snd (roundsLoop noEvents (startGame oneSquad) 0) = 2"
  "map teamName (winners (fst (roundsLoop noEvents (startGame oneSquad) 0))) = [''Alfa'']"
  "teamScores (playRound noEvents (startGame oneSquad) 0) = [1]"
  "teamScores (playRound noEvents (playRound noEvents (startGame oneSquad) 0) 1) = [2]"
  by (simp_all add: oneSquad_def teamScores_def winners_def run_defs)

lemma noSquad_run:
  "teamScores (fst (roundsLoop noEvents (startGame newGameState) 0)) = []"
  by (simp_all add: teamScores_def run_defs)

text \<open>
  Claim C4 asks that right after \<open>startGame\<close> the match holds exactly six squads, with
  ids 0 to 5 and no round won. Evaluated on the object that the script constructs and
  passes to \<open>startGame\<close>: the two flags are set as claimed, but the map of teams is empty,
  no team is found under id 0, and the map is still empty when the game is over. No
  statement of the script constructs a \<open>Team\<close> or calls \<open>gameReset\<close>, although its header
  announces six squads and it declares \<open>NUMBER_OF_TEAMS = 6\<close>.
\<close>

theorem startGame_leaves_no_squads:
  "gameStarted (startGame newGameState) \<and> \<not> gameEnded (startGame newGameState)
   \<and> teams (startGame newGameState) = []
   \<and> length (teams (startGame newGameState)) \<noteq> 6
   \<and> getTeamById (startGame newGameState) 0 = None
   \<and> teams (fst (OnGameModeStarted noEvents newGameState)) = []"
proof -
  have "teams (fst (OnGameModeStarted noEvents newGameState)) = []"
    by (simp add: OnGameModeStarted_unfold run_defs)
  then show ?thesis
    by (simp add: startGame_def newGameState_def getTeamById_def)
qed

text \<open>
  Claim C7. Let the waits leave the scores alone and let no team hold two round wins
  when the game starts. If a team has two round wins after round \<open>r\<close> is resolved, the outer
  loop ends there, with \<open>r + 1\<close> rounds played. When the loop ends with some team at two
  wins, that team is the only one and the final message names it as the winner. When it
  ends with no team at two wins, all 7 rounds were played and the final message reports
  the game lost. In both cases the result is the state left by \<open>endGame\<close>:
  \<open>gameStarted\<close> false, \<open>gameEnded\<close> true, \<open>gameRound\<close> -1.
\<close>

theorem game_termination:
  assumes scores_kept: "\<And>r t g. teamScores (w r t g) = teamScores g"
    and fresh: "noTeamHasWon game"
  shows "(noTeamHasWon g \<and> r < 7 \<and> \<not> noTeamHasWon (playRound w g r)
            \<longrightarrow> roundsLoop w g r = (playRound w g r, r + 1))
    \<and> (\<not> noTeamHasWon (fst (roundsLoop w (startGame game) 0))
          \<longrightarrow> (\<exists>tm. winners (fst (roundsLoop w (startGame game) 0)) = [tm]
                 \<and> snd (OnGameModeStarted w game)
                     = GameWonBy (teamName tm) (snd (roundsLoop w (startGame game) 0) + 1)))
    \<and> (noTeamHasWon (fst (roundsLoop w (startGame game) 0))
          \<longrightarrow> snd (roundsLoop w (startGame game) 0) = 7
              \<and> snd (OnGameModeStarted w game) = GameLost 7)
    \<and> fst (OnGameModeStarted w game) = endGame (fst (roundsLoop w (startGame game) 0))
    \<and> \<not> gameStarted (fst (OnGameModeStarted w game))
    \<and> gameEnded (fst (OnGameModeStarted w game))
    \<and> gameRound (fst (OnGameModeStarted w game)) = - 1"
proof -
  let ?gE = "fst (roundsLoop w (startGame game) 0)"
  let ?n = "snd (roundsLoop w (startGame game) 0)"
  have stop: "noTeamHasWon g \<and> r < 7 \<and> \<not> noTeamHasWon (playRound w g r)
            \<longrightarrow> roundsLoop w g r = (playRound w g r, r + 1)"
    by (simp add: roundsLoop_step roundsLoop_stops MAX_NUMBER_OF_ROUNDS_def)
  have "winners (startGame game) = []"
    using fresh by (simp add: noTeamHasWon_winners winners_def startGame_def)
  then have le1: "length (winners ?gE) \<le> 1"
    using roundsLoop_winners [of w "startGame game" 0] scores_kept by simp
  have won: "\<exists>tm. winners ?gE = [tm]
      \<and> snd (OnGameModeStarted w game) = GameWonBy (teamName tm) (?n + 1)"
    if "\<not> noTeamHasWon ?gE"
  proof -
    from that le1 have "length (winners ?gE) = 1"
      by (cases "winners ?gE") (auto simp: noTeamHasWon_winners)
    then obtain tm where tm: "winners ?gE = [tm]"
      by (cases "winners ?gE") auto
    then show ?thesis by (simp add: OnGameModeStarted_unfold)
  qed
  have lost: "?n = 7 \<and> snd (OnGameModeStarted w game) = GameLost 7"
    if "noTeamHasWon ?gE"
  proof -
    from that roundsLoop_exit [of 0 w "startGame game"] have "?n = 7"
      by (simp add: MAX_NUMBER_OF_ROUNDS_def)
    moreover from that have "winners ?gE = []" by (simp add: noTeamHasWon_winners)
    ultimately show ?thesis
      by (simp add: OnGameModeStarted_unfold MAX_NUMBER_OF_ROUNDS_def)
  qed
  have fin: "fst (OnGameModeStarted w game) = endGame ?gE"
    by (simp add: OnGameModeStarted_unfold)
  show ?thesis
    using stop won lost fin by (simp add: endGame_def)
qed

theorem game_termination_witness:
  "(\<forall>r t g. teamScores (noEvents r t g) = teamScores g)
   \<and> noTeamHasWon oneSquad
   \<and> noTeamHasWon (playRound noEvents (startGame oneSquad) 0) \<and> (1::nat) < 7
   \<and> \<not> noTeamHasWon (playRound noEvents (playRound noEvents (startGame oneSquad) 0) 1)
   \<and> roundsLoop noEvents (playRound noEvents (startGame oneSquad) 0) 1
       = (playRound noEvents (playRound noEvents (startGame oneSquad) 0) 1, 2)
   \<and> \<not> noTeamHasWon (fst (roundsLoop noEvents (startGame oneSquad) 0))
   \<and> snd (OnGameModeStarted noEvents oneSquad) = GameWonBy ''Alfa'' 3
   \<and> gameEnded (fst (OnGameModeStarted noEvents oneSquad))
   \<and> gameRound (fst (OnGameModeStarted noEvents oneSquad)) = - 1
   \<and> noTeamHasWon newGameState
   \<and> noTeamHasWon (fst (roundsLoop noEvents (startGame newGameState) 0))
   \<and> snd (roundsLoop noEvents (startGame newGameState) 0) = 7
   \<and> snd (OnGameModeStarted noEvents newGameState) = GameLost 7"
proof -
  let ?g1 = "playRound noEvents (startGame oneSquad) 0"
  have a: "teamScores (noEvents r t g) = teamScores g" for r t g
    by (simp add: noEvents_def)
  have f1: "noTeamHasWon oneSquad"
    by (simp add: noTeamHasWon_scores teamScores_def oneSquad_def newGameState_def newTeam_def)
  have f2: "noTeamHasWon newGameState"
    by (simp add: noTeamHasWon_def newGameState_def)
  have h1: "noTeamHasWon ?g1"
    by (simp add: noTeamHasWon_scores oneSquad_run)
  have h2: "\<not> noTeamHasWon (playRound noEvents ?g1 1)"
    unfolding noTeamHasWon_scores oneSquad_run by simp
  have h3: "\<not> noTeamHasWon (fst (roundsLoop noEvents (startGame oneSquad) 0))"
    by (simp add: noTeamHasWon_scores oneSquad_run)
  have h4: "noTeamHasWon (fst (roundsLoop noEvents (startGame newGameState) 0))"
    by (simp add: noTeamHasWon_scores noSquad_run)
  note A = game_termination [of noEvents oneSquad ?g1 1, OF a f1]
  note B = game_termination [of noEvents newGameState ?g1 1, OF a f2]
  from A h1 h2 have c1: "roundsLoop noEvents ?g1 1 = (playRound noEvents ?g1 1, 2)"
    by simp
  from A h3 obtain tm where tm: "winners (fst (roundsLoop noEvents (startGame oneSquad) 0)) = [tm]"
    "snd (OnGameModeStarted noEvents oneSquad)
       = GameWonBy (teamName tm) (snd (roundsLoop noEvents (startGame oneSquad) 0) + 1)"
    by blast
  from tm(1) oneSquad_run(3) have "teamName tm = ''Alfa''" by simp
  with tm(2) have c2: "snd (OnGameModeStarted noEvents oneSquad) = GameWonBy ''Alfa'' 3"
    by (simp add: oneSquad_run)
  from A have c3: "gameEnded (fst (OnGameModeStarted noEvents oneSquad))"
    "gameRound (fst (OnGameModeStarted noEvents oneSquad)) = - 1"
    by blast+
  from B h4 have c4: "snd (roundsLoop noEvents (startGame newGameState) 0) = 7"
    "snd (OnGameModeStarted noEvents newGameState) = GameLost 7"
    by blast+
  show ?thesis
    using a f1 f2 h1 h2 h3 h4 c1 c2 c3 c4 by simp
qed

end
